theory Spec2Isabelle
  imports Main "HOL-Library.Char_ord" "HOL-Library.List_Lexorder"
begin

section \<open>Python values and dictionaries\<close>

text \<open>
  The payloads of \<^verbatim>\<open>Graph/graph.py\<close> are Python dictionaries from strings to
  arbitrary values. The values the repository's code builds and inspects are integers,
  strings, \<^verbatim>\<open>None\<close>, lists (\<^verbatim>\<open>isinstance(v, list)\<close>) and dictionaries
  (\<^verbatim>\<open>isinstance(result, dict)\<close>).

  A dictionary is an association list in insertion order with pairwise distinct keys,
  which is the order Python iterates it in. Values are compared by content: object
  identity is not part of the model, so a list object that is reachable under two
  names is modelled as two equal lists.
\<close>

datatype pyval =
    PNone
  | PInt int
  | PStr string
  | PList "pyval list"
  | PDict "(string \<times> pyval) list"

type_synonym dict = "(string \<times> pyval) list"

text \<open>The exceptions that the code of the repository can let escape from a call.\<close>

datatype exn = NotImplementedError | TypeError | AttributeError | RecursionError

text \<open>\<^verbatim>\<open>d.get(key)\<close>: the value stored under the key, if any.\<close>

definition dict_get :: "dict \<Rightarrow> string \<Rightarrow> pyval option" where
  "dict_get d key = map_of d key"

text \<open>\<^verbatim>\<open>d[key] = value\<close>: an existing key keeps its position, a new key goes last.\<close>

fun dict_setitem :: "string \<Rightarrow> pyval \<Rightarrow> dict \<Rightarrow> dict" where
  "dict_setitem key v [] = [(key, v)]"
| "dict_setitem key v ((k, w) # d) =
     (if k = key then (key, v) # d else (k, w) # dict_setitem key v d)"

text \<open>\<^verbatim>\<open>d.update(other)\<close>: every item of \<^verbatim>\<open>other\<close> is stored, in its order.\<close>

fun dict_update :: "dict \<Rightarrow> dict \<Rightarrow> dict" where
  "dict_update d [] = d"
| "dict_update d ((k, v) # other) = dict_update (dict_setitem k v d) other"


text \<open>\<^verbatim>\<open>isinstance(v, dict)\<close>.\<close>

fun is_dict :: "pyval \<Rightarrow> bool" where
  "is_dict (PDict d) = True"
| "is_dict v = False"


text \<open>
  \<^verbatim>\<open>a + b\<close> and \<^verbatim>\<open>a * b\<close> on these values; \<open>None\<close> is the \<^verbatim>\<open>TypeError\<close>
  of the operand types that have no such operation.
\<close>

fun py_add :: "pyval \<Rightarrow> pyval \<Rightarrow> pyval option" where
  "py_add (PInt a) (PInt b) = Some (PInt (a + b))"
| "py_add (PStr a) (PStr b) = Some (PStr (a @ b))"
| "py_add (PList a) (PList b) = Some (PList (a @ b))"
| "py_add a b = None"

fun py_mul :: "pyval \<Rightarrow> pyval \<Rightarrow> pyval option" where
  "py_mul (PInt a) (PInt b) = Some (PInt (a * b))"
| "py_mul (PInt a) (PStr b) = Some (PStr (concat (replicate (nat a) b)))"
| "py_mul (PStr a) (PInt b) = Some (PStr (concat (replicate (nat b) a)))"
| "py_mul (PInt a) (PList b) = Some (PList (concat (replicate (nat a) b)))"
| "py_mul (PList a) (PInt b) = Some (PList (concat (replicate (nat b) a)))"
| "py_mul a b = None"

section \<open>MixerNode.custom\_merge\<close>

text \<open>
  The body of the loop of \<^verbatim>\<open>custom_merge\<close> for a key that \<^verbatim>\<open>merged\<close> already
  holds: \<^verbatim>\<open>m\<close> is \<^verbatim>\<open>merged[key]\<close> and the second argument is the value of
  \<^verbatim>\<open>dict2\<close>. The four equations are the four branches of the \<^verbatim>\<open>if\<close> chain, in
  the source's order. \<^verbatim>\<open>extend\<close> and \<^verbatim>\<open>append\<close> change the list object in place;
  the model stores the resulting list under the key.
\<close>

fun merge_value :: "pyval \<Rightarrow> pyval \<Rightarrow> pyval" where
  "merge_value (PList xs) (PList ys) = PList (xs @ ys)"
| "merge_value (PList xs) v = PList (xs @ [v])"
| "merge_value m (PList ys) = PList (m # ys)"
| "merge_value m v = PList [m, v]"

text \<open>The loop \<^verbatim>\<open>for key, value in dict2.items()\<close> over the items still to visit.\<close>

fun custom_merge_loop :: "dict \<Rightarrow> dict \<Rightarrow> dict" where
  "custom_merge_loop [] merged = merged"
| "custom_merge_loop ((key, v) # items) merged =
     custom_merge_loop items
       (case dict_get merged key of
          Some m \<Rightarrow> dict_setitem key (merge_value m v) merged
        | None \<Rightarrow> dict_setitem key v merged)"

definition custom_merge :: "dict \<Rightarrow> dict \<Rightarrow> dict" where
  "custom_merge dict1 dict2 = custom_merge_loop dict2 dict1"

section \<open>Pipe\<close>

text \<open>
  A stage is any Python callable: \<^verbatim>\<open>__or__\<close> asks for no more. A function or a
  lambda has a \<^verbatim>\<open>__name__\<close>; a \<^verbatim>\<open>functools.partial\<close> object or an instance of
  a class with \<^verbatim>\<open>__call__\<close> has none, and reading \<^verbatim>\<open>func.__name__\<close> of such a
  stage raises \<^verbatim>\<open>AttributeError\<close>. \<^verbatim>\<open>func(**self.value)\<close> builds a fresh keyword
  dictionary from the bag, so the callable is modelled by what it does with that
  dictionary: it returns some value or raises an \<^verbatim>\<open>Exception\<close>. Stages that change
  the objects they are handed in place are outside the model.
\<close>

datatype stage_result = Returns pyval | Raises

record stage =
  stage_name :: "string option"
  stage_call :: "dict \<Rightarrow> stage_result"

record Pipe =
  pipe_value :: dict
  pipe_trace :: bool
  pipe_functions :: "stage list"

text \<open>The dictionary \<^verbatim>\<open>{"function": name, "output": snapshot}\<close> of a trace entry.\<close>

definition trace_entry :: "string \<Rightarrow> dict \<Rightarrow> pyval" where
  "trace_entry nm snapshot = PDict [(''function'', PStr nm), (''output'', PDict snapshot)]"

text \<open>
  \<^verbatim>\<open>Pipe.__init__\<close>: after the fields are set, a traced pipe stores the list with the
  entry of the initial bag under the key \<^verbatim>\<open>"trace"\<close> of the bag itself. The snapshot
  \<^verbatim>\<open>self.value.copy()\<close> is taken before the key is written.
\<close>

definition Pipe_init :: "dict \<Rightarrow> bool \<Rightarrow> stage list \<Rightarrow> Pipe" where
  "Pipe_init v tr fs =
     (if tr
      then \<lparr>pipe_value = dict_setitem ''trace'' (PList [trace_entry ''input'' v]) v,
            pipe_trace = tr, pipe_functions = fs\<rparr>
      else \<lparr>pipe_value = v, pipe_trace = tr, pipe_functions = fs\<rparr>)"

text \<open>\<^verbatim>\<open>Pipe.__or__\<close> with a callable operand.\<close>

definition Pipe_or :: "Pipe \<Rightarrow> stage \<Rightarrow> Pipe" where
  "Pipe_or p func = p\<lparr>pipe_functions := pipe_functions p @ [func]\<rparr>"

text \<open>
  How one iteration of the loop of \<^verbatim>\<open>Pipe.__call__\<close> ends: the \<^verbatim>\<open>try\<close> block
  ends normally and the loop goes on, or the \<^verbatim>\<open>except\<close> clause returns \<^verbatim>\<open>None\<close>,
  or an exception leaves the \<^verbatim>\<open>except\<close> clause and with it the call.
\<close>

datatype step = Continue | Return_None | Raise exn

text \<open>
  The \<^verbatim>\<open>except Exception\<close> clause: the message of \<^verbatim>\<open>logging.error\<close> is built from
  \<^verbatim>\<open>func.__name__\<close>, so for a stage without a name the clause raises
  \<^verbatim>\<open>AttributeError\<close> before it reaches \<^verbatim>\<open>return None\<close>.
\<close>

definition except_clause :: "stage \<Rightarrow> Pipe \<Rightarrow> step \<times> Pipe" where
  "except_clause func p =
     (case stage_name func of
        Some nm \<Rightarrow> (Return_None, p)
      | None \<Rightarrow> (Raise AttributeError, p))"

text \<open>
  One iteration of the loop, with the pipe as the iteration leaves it. Everything that
  is raised inside the \<^verbatim>\<open>try\<close> block enters the \<^verbatim>\<open>except\<close> clause: what the stage
  raises; the \<^verbatim>\<open>ValueError\<close> for a result that is no mapping (or the
  \<^verbatim>\<open>AttributeError\<close> of \<^verbatim>\<open>func.__name__\<close> in its message); and, after the update of
  the bag, the \<^verbatim>\<open>KeyError\<close> of \<^verbatim>\<open>self.value["trace"]\<close> without the key, the
  \<^verbatim>\<open>AttributeError\<close> of \<^verbatim>\<open>.append\<close> on a value that is no list and the
  \<^verbatim>\<open>AttributeError\<close> of \<^verbatim>\<open>func.__name__\<close> in the trace entry.
\<close>

definition Pipe_step :: "stage \<Rightarrow> Pipe \<Rightarrow> step \<times> Pipe" where
  "Pipe_step func p =
     (case stage_call func (pipe_value p) of
        Raises \<Rightarrow> except_clause func p
      | Returns result \<Rightarrow>
          (case result of
             PDict r \<Rightarrow>
               (let p1 = p\<lparr>pipe_value := dict_update (pipe_value p) r\<rparr>
                in if pipe_trace p1
                   then (case dict_get (pipe_value p1) ''trace'' of
                           Some (PList t) \<Rightarrow>
                             (case stage_name func of
                                Some nm \<Rightarrow>
                                  (Continue, p1\<lparr>pipe_value :=
                                     dict_setitem ''trace''
                                       (PList (t @ [trace_entry nm r]))
                                       (pipe_value p1)\<rparr>)
                              | None \<Rightarrow> except_clause func p1)
                         | _ \<Rightarrow> except_clause func p1)
                   else (Continue, p1))
           | _ \<Rightarrow> except_clause func p))"

text \<open>
  The loop of \<^verbatim>\<open>Pipe.__call__\<close> over the stages still to run, with the pipe as the
  call leaves it: \<open>Inr (Some d)\<close> is the returned copy \<^verbatim>\<open>self.value.copy()\<close> after
  the last stage, \<open>Inr None\<close> the \<^verbatim>\<open>None\<close> that the \<^verbatim>\<open>except\<close> clause returns,
  and \<open>Inl e\<close> an exception that leaves the call.
\<close>

fun call_loop :: "stage list \<Rightarrow> Pipe \<Rightarrow> (exn + dict option) \<times> Pipe" where
  "call_loop [] p = (Inr (Some (pipe_value p)), p)"
| "call_loop (func # fs) p =
     (case Pipe_step func p of
        (Continue, p') \<Rightarrow> call_loop fs p'
      | (Return_None, p') \<Rightarrow> (Inr None, p')
      | (Raise e, p') \<Rightarrow> (Inl e, p'))"

definition Pipe_call :: "Pipe \<Rightarrow> (exn + dict option) \<times> Pipe" where
  "Pipe_call p = call_loop (pipe_functions p) p"


text \<open>
  The stage invocations that the loop makes, in order: the name of the stage, if it
  has one, and the keyword arguments it is called with.
\<close>

fun stage_calls :: "stage list \<Rightarrow> Pipe \<Rightarrow> (string option \<times> dict) list" where
  "stage_calls [] p = []"
| "stage_calls (func # fs) p =
     (stage_name func, pipe_value p) #
     (case Pipe_step func p of
        (Continue, p') \<Rightarrow> stage_calls fs p'
      | (Return_None, p') \<Rightarrow> []
      | (Raise e, p') \<Rightarrow> [])"

section \<open>Nodes\<close>

text \<open>
  A node object is identified by its name (\<^verbatim>\<open>__hash__\<close> hashes the name; names are
  unique). The store maps every name to the state of the node of that name, and every
  pipe identifier to a \<^verbatim>\<open>Pipe\<close> object, so that two nodes may share one pipe.

  A \<^verbatim>\<open>WeakSet\<close> of nodes is the set of the names of its members. The nodes are
  kept alive by the layers that hold them, so no member vanishes.
\<close>

type_synonym weakset = "string set"

datatype kind = Node | DataNode | ProcessingNode | MixerNode

record node =
  kind :: kind
  data :: "dict option"
  inputs :: weakset
  outputs :: weakset
  data_history :: "dict option list"
  pipeline :: "nat option"

record store =
  nodes :: "string \<Rightarrow> node"
  pipes :: "nat \<Rightarrow> Pipe"

definition WeakSet_add :: "string \<Rightarrow> weakset \<Rightarrow> weakset" where
  "WeakSet_add x s = insert x s"

text \<open>
  The order in which \<^verbatim>\<open>for output in self.outputs\<close> yields the members of a
  \<^verbatim>\<open>WeakSet\<close> is not the order of insertion: it follows the hashes of the names,
  which the interpreter randomises per process. An \<open>iteration\<close> is one such order
  for a whole run: it tells, for each node and each finite set of members that the
  node's \<^verbatim>\<open>outputs\<close> may hold, the list in which iteration yields them, every member
  once. Every function that iterates takes it as its first argument, and what is
  proved of such a function holds for every iteration order.
\<close>

typedef iteration =
  "{f :: string \<Rightarrow> string set \<Rightarrow> string list.
      \<forall>n S. finite S \<longrightarrow> set (f n S) = S \<and> distinct (f n S)}"
  morphisms iterate Abs_iteration
proof
  show "(\<lambda>n. sorted_list_of_set) \<in>
    {f :: string \<Rightarrow> string set \<Rightarrow> string list.
       \<forall>n S. finite S \<longrightarrow> set (f n S) = S \<and> distinct (f n S)}"
    by simp
qed

text \<open>One iteration order, for closed examples: the members in ascending order.\<close>

definition ascending :: iteration where
  "ascending = Abs_iteration (\<lambda>n. sorted_list_of_set)"

text \<open>
  \<^verbatim>\<open>self.inputs[i]\<close>: \<^verbatim>\<open>weakref.WeakSet\<close> defines no \<^verbatim>\<open>__getitem__\<close>, so
  subscripting an instance raises \<^verbatim>\<open>TypeError\<close> whatever the set holds.
\<close>

definition WeakSet_getitem :: "weakset \<Rightarrow> nat \<Rightarrow> exn + string" where
  "WeakSet_getitem s i = Inl TypeError"

text \<open>Truth value of an optional dictionary: \<^verbatim>\<open>None\<close> and \<^verbatim>\<open>{}\<close> are false.\<close>

definition truthy :: "dict option \<Rightarrow> bool" where
  "truthy d = (case d of None \<Rightarrow> False | Some m \<Rightarrow> m \<noteq> [])"

definition set_data :: "string \<Rightarrow> dict option \<Rightarrow> store \<Rightarrow> store" where
  "set_data n d st = st\<lparr>nodes := (nodes st)(n := (nodes st n)\<lparr>data := d\<rparr>)\<rparr>"

subsection \<open>Node.add\_input and Node.add\_output\<close>

function add_input :: "string \<Rightarrow> string \<Rightarrow> store \<Rightarrow> store"
  and add_output :: "string \<Rightarrow> string \<Rightarrow> store \<Rightarrow> store" where
  "add_input self n st =
     (if n \<notin> inputs (nodes st self)
      then add_output n self
             (st\<lparr>nodes := (nodes st)(self := (nodes st self)
                   \<lparr>inputs := WeakSet_add n (inputs (nodes st self))\<rparr>)\<rparr>)
      else st)"
| "add_output self n st =
     (if n \<notin> outputs (nodes st self)
      then add_input n self
             (st\<lparr>nodes := (nodes st)(self := (nodes st self)
                   \<lparr>outputs := WeakSet_add n (outputs (nodes st self))\<rparr>)\<rparr>)
      else st)"
  by pat_completeness auto
termination
  by (relation "measure (\<lambda>x. case x of
         Inl (self, n, st) \<Rightarrow>
           (if self \<in> outputs (nodes st n) then 0 else 1) +
           (if n \<in> inputs (nodes st self) then 0 else 1)
       | Inr (self, n, st) \<Rightarrow>
           (if n \<in> outputs (nodes st self) then 0 else 1) +
           (if self \<in> inputs (nodes st n) then 0 else 1))")
     (auto simp: WeakSet_add_def)

declare add_input.simps [simp del] add_output.simps [simp del]

subsection \<open>process\<close>

text \<open>
  The first half of \<^verbatim>\<open>DataNode.process\<close>: a snapshot of present data goes to the
  history.
\<close>

definition record_history :: "string \<Rightarrow> store \<Rightarrow> store" where
  "record_history self st =
     (case data (nodes st self) of
        Some d \<Rightarrow> st\<lparr>nodes := (nodes st)(self := (nodes st self)
                      \<lparr>data_history := data_history (nodes st self) @ [Some d]\<rparr>)\<rparr>
      | None \<Rightarrow> st)"

text \<open>
  The first half of \<^verbatim>\<open>ProcessingNode.process\<close>: with data and a pipeline, the data
  is merged into the bag of the pipeline, the pipeline runs, and a true result (neither
  \<^verbatim>\<open>None\<close> nor empty) replaces the data. The call \<^verbatim>\<open>self.pipeline()\<close> stands in no
  \<^verbatim>\<open>try\<close>: an exception that leaves it leaves \<^verbatim>\<open>process\<close> too, with the pipe as
  the call left it.
\<close>

definition run_pipeline :: "string \<Rightarrow> store \<Rightarrow> exn option \<times> store" where
  "run_pipeline self st =
     (case (data (nodes st self), pipeline (nodes st self)) of
        (Some d, Some pid) \<Rightarrow>
          (let p = pipes st pid;
               (outcome, p') = Pipe_call (p\<lparr>pipe_value := dict_update (pipe_value p) d\<rparr>);
               st' = st\<lparr>pipes := (pipes st)(pid := p')\<rparr>
           in case outcome of
                Inl e \<Rightarrow> (Some e, st')
              | Inr result \<Rightarrow>
                  (None, if truthy result then set_data self result st' else st'))
      | _ \<Rightarrow> (None, st))"

text \<open>
  \<^verbatim>\<open>process\<close> calls itself through the output edges, to a depth that the graph does
  not bound. The argument \<open>depth\<close> is the number of nested \<^verbatim>\<open>process\<close> calls that
  the interpreter's recursion limit still admits; at \<open>0\<close> the call raises
  \<^verbatim>\<open>RecursionError\<close>. The result is the exception that leaves the call, if any, and
  the store as the call leaves it: an exception undoes nothing.

  \<open>propagate\<close> is the loop \<^verbatim>\<open>for output in self.outputs\<close> of \<^verbatim>\<open>DataNode\<close> and
  \<^verbatim>\<open>ProcessingNode\<close> over the outputs still to visit, \<open>propagate_merged\<close> the
  loop of \<^verbatim>\<open>MixerNode\<close>, where \<^verbatim>\<open>self.data.copy()\<close> has no guard.
  \<^verbatim>\<open>len(self.inputs)\<close> is the number of members of the set.
\<close>

function (sequential)
  process :: "iteration \<Rightarrow> nat \<Rightarrow> string \<Rightarrow> store \<Rightarrow> exn option \<times> store"
  and propagate ::
    "iteration \<Rightarrow> nat \<Rightarrow> string \<Rightarrow> string list \<Rightarrow> store \<Rightarrow> exn option \<times> store"
  and propagate_merged ::
    "iteration \<Rightarrow> nat \<Rightarrow> string \<Rightarrow> string list \<Rightarrow> store \<Rightarrow> exn option \<times> store"
  where
  "process it 0 self st = (Some RecursionError, st)"
| "process it (Suc depth) self st =
     (case kind (nodes st self) of
        Node \<Rightarrow> (Some NotImplementedError, st)
      | DataNode \<Rightarrow>
          propagate it depth self (iterate it self (outputs (nodes st self)))
            (record_history self st)
      | ProcessingNode \<Rightarrow>
          (case run_pipeline self st of
             (Some e, st') \<Rightarrow> (Some e, st')
           | (None, st') \<Rightarrow>
               propagate it depth self (iterate it self (outputs (nodes st' self))) st')
      | MixerNode \<Rightarrow>
          (if card (inputs (nodes st self)) \<ge> 2
           then (case WeakSet_getitem (inputs (nodes st self)) 0 of
                   Inl e \<Rightarrow> (Some e, st)
                 | Inr i0 \<Rightarrow>
                     (case WeakSet_getitem (inputs (nodes st self)) 1 of
                        Inl e \<Rightarrow> (Some e, st)
                      | Inr i1 \<Rightarrow>
                          (if truthy (data (nodes st i0)) \<and> truthy (data (nodes st i1))
                           then propagate_merged it depth self
                                  (iterate it self (outputs (nodes st self)))
                                  (set_data self
                                     (Some (custom_merge (the (data (nodes st i0)))
                                                         (the (data (nodes st i1))))) st)
                           else (None, st))))
           else (None, st)))"
| "propagate it depth self [] st = (None, st)"
| "propagate it depth self (out # rest) st =
     (case process it depth out
             (set_data out (if truthy (data (nodes st self)) then data (nodes st self) else None) st) of
        (None, st') \<Rightarrow> propagate it depth self rest st'
      | (Some e, st') \<Rightarrow> (Some e, st'))"
| "propagate_merged it depth self [] st = (None, st)"
| "propagate_merged it depth self (out # rest) st =
     (case data (nodes st self) of
        None \<Rightarrow> (Some AttributeError, st)
      | Some d \<Rightarrow>
          (case process it depth out (set_data out (Some d) st) of
             (None, st') \<Rightarrow> propagate_merged it depth self rest st'
           | (Some e, st') \<Rightarrow> (Some e, st')))"
  by pat_completeness auto
termination
  apply (relation "inv_image (less_than <*lex*> less_than)
           (\<lambda>x. case x of
              Inl (it, depth, self, st) \<Rightarrow> (depth, 0::nat)
            | Inr (Inl (it, depth, self, outs, st)) \<Rightarrow> (depth, Suc (length outs))
            | Inr (Inr (it, depth, self, outs, st)) \<Rightarrow> (depth, Suc (length outs)))")
   apply (intro wf_inv_image wf_lex_prod wf_less_than)
  apply simp_all
  done

section \<open>Layer\<close>

text \<open>
  \<^verbatim>\<open>Layer.process\<close> over the nodes still to process: the \<^verbatim>\<open>except Exception\<close>
  clause logs what a node's \<^verbatim>\<open>process\<close> raises and the loop goes on with the store as
  the failed call left it. Each call starts with the same recursion budget.
\<close>

fun Layer_process :: "iteration \<Rightarrow> nat \<Rightarrow> string list \<Rightarrow> store \<Rightarrow> store" where
  "Layer_process it depth [] st = st"
| "Layer_process it depth (n # ns) st =
     (case process it depth n st of
        (None, st') \<Rightarrow> Layer_process it depth ns st'
      | (Some e, st') \<Rightarrow> Layer_process it depth ns st')"

text \<open>\<^verbatim>\<open>Layer.connect_to\<close>: the inner loop for one node, then the outer loop.\<close>

fun connect_node :: "string \<Rightarrow> string list \<Rightarrow> store \<Rightarrow> store" where
  "connect_node n [] st = st"
| "connect_node n (next_node # rest) st = connect_node n rest (add_output n next_node st)"

fun connect_to :: "string list \<Rightarrow> string list \<Rightarrow> store \<Rightarrow> store" where
  "connect_to [] next_layer st = st"
| "connect_to (n # ns) next_layer st = connect_to ns next_layer (connect_node n next_layer st)"

section \<open>Iteration over neighbours, as the specification words it\<close>

text \<open>
  The specification describes propagation as: for every output neighbour, in the
  order iterated, do the visit, the whole visit of one neighbour finishing before the
  next one starts. \<open>visit_in_order\<close> is that iteration for an arbitrary visit; a
  visit that raises ends it, since nothing in a node's \<^verbatim>\<open>process\<close> catches.
\<close>

fun visit_in_order ::
  "(string \<Rightarrow> store \<Rightarrow> exn option \<times> store) \<Rightarrow> string list \<Rightarrow> store \<Rightarrow> exn option \<times> store" where
  "visit_in_order visit [] st = (None, st)"
| "visit_in_order visit (n # ns) st =
     (case visit n st of
        (None, st') \<Rightarrow> visit_in_order visit ns st'
      | (Some e, st') \<Rightarrow> (Some e, st'))"

text \<open>
  The edges of a store, read from the output sets and from the input sets. The
  specification's invariant of edge symmetry says that the two readings agree: \<open>b\<close> is
  in the outputs of \<open>a\<close> exactly when \<open>a\<close> is in the inputs of \<open>b\<close>.
\<close>

definition out_edges :: "store \<Rightarrow> (string \<times> string) set" where
  "out_edges st = {(a, b). b \<in> outputs (nodes st a)}"

definition in_edges :: "store \<Rightarrow> (string \<times> string) set" where
  "in_edges st = {(a, b). a \<in> inputs (nodes st b)}"

definition edge_symmetry :: "store \<Rightarrow> bool" where
  "edge_symmetry st \<longleftrightarrow> out_edges st = in_edges st"

section \<open>The stages and graphs of example.py\<close>

text \<open>
  \<^verbatim>\<open>add_value(value=1, **data)\<close> and \<^verbatim>\<open>square_value(**data)\<close>. The pipeline of the
  adder node is built from \<^verbatim>\<open>lambda **data: add_value(value=5, **data)\<close>, a call that
  raises \<^verbatim>\<open>TypeError\<close> when \<^verbatim>\<open>data\<close> has the key \<^verbatim>\<open>"value"\<close> itself.
\<close>

definition add_value :: "int \<Rightarrow> dict \<Rightarrow> stage_result" where
  "add_value v kw =
     (case py_add (case dict_get kw ''passthrough'' of Some x \<Rightarrow> x | None \<Rightarrow> PInt 0) (PInt v) of
        Some s \<Rightarrow> Returns (PDict (dict_setitem ''passthrough'' s kw))
      | None \<Rightarrow> Raises)"

definition square_value :: "dict \<Rightarrow> stage_result" where
  "square_value kw =
     (let val = (case dict_get kw ''passthrough'' of Some x \<Rightarrow> x | None \<Rightarrow> PInt 0)
      in case py_mul val val of
           Some s \<Rightarrow> Returns (PDict (dict_setitem ''passthrough'' s kw))
         | None \<Rightarrow> Raises)"

definition adder_stage :: stage where
  "adder_stage =
     \<lparr>stage_name = Some ''<lambda>'',
      stage_call = (\<lambda>kw. if dict_get kw ''value'' \<noteq> None then Raises else add_value 5 kw)\<rparr>"

definition squarer_stage :: stage where
  "squarer_stage = \<lparr>stage_name = Some ''square_value'', stage_call = square_value\<rparr>"

text \<open>
  The constructor of a node class: the given data, two empty edge sets, an empty
  history and no pipeline. \<^verbatim>\<open>set_pipeline\<close> attaches the pipe of an identifier.
\<close>

definition Node_init :: "kind \<Rightarrow> dict option \<Rightarrow> node" where
  "Node_init c d =
     \<lparr>kind = c, data = d, inputs = {}, outputs = {}, data_history = [], pipeline = None\<rparr>"

definition set_pipeline :: "string \<Rightarrow> nat \<Rightarrow> store \<Rightarrow> store" where
  "set_pipeline self pid st =
     st\<lparr>nodes := (nodes st)(self := (nodes st self)\<lparr>pipeline := Some pid\<rparr>)\<rparr>"

text \<open>
  A store in which every name denotes an instance of the base class \<^verbatim>\<open>Node\<close>
  without data or edges, and every pipe is \<^verbatim>\<open>Pipe()\<close>.
\<close>

definition blank_store :: store where
  "blank_store = \<lparr>nodes = (\<lambda>n. Node_init Node None), pipes = (\<lambda>i. Pipe_init [] False [])\<rparr>"

text \<open>
  The linear chain: \<^verbatim>\<open>DataNode(name="InputNode", data={"passthrough": 10})\<close>, an adder
  and a squarer \<^verbatim>\<open>ProcessingNode\<close> with the pipelines of example.py, and an output
  \<^verbatim>\<open>DataNode\<close>, one node per layer, each layer connected to the next.
\<close>

definition chain_nodes :: store where
  "chain_nodes =
     \<lparr>nodes = (\<lambda>n. Node_init Node None)
        (''InputNode'' := Node_init DataNode (Some [(''passthrough'', PInt 10)]),
         ''AdderNode'' := Node_init ProcessingNode None,
         ''SquarerNode'' := Node_init ProcessingNode None,
         ''OutputNode'' := Node_init DataNode None),
      pipes = (\<lambda>i. Pipe_init [] False [])
        (0 := Pipe_or (Pipe_init [] False []) adder_stage,
         1 := Pipe_or (Pipe_init [] False []) squarer_stage)\<rparr>"

definition chain_store :: store where
  "chain_store =
     connect_to [''SquarerNode''] [''OutputNode'']
       (connect_to [''AdderNode''] [''SquarerNode'']
          (connect_to [''InputNode''] [''AdderNode'']
             (set_pipeline ''SquarerNode'' 1 (set_pipeline ''AdderNode'' 0 chain_nodes))))"

text \<open>
  The fan-in at the end of example.py in small: two data nodes connected to one
  \<^verbatim>\<open>MixerNode\<close>.
\<close>

definition mixer_store :: store where
  "mixer_store =
     connect_to [''A'', ''B''] [''MixerNode'']
       (blank_store\<lparr>nodes := (nodes blank_store)
          (''A'' := Node_init DataNode (Some [(''a'', PInt 1)]),
           ''B'' := Node_init DataNode (Some [(''a'', PInt 2)]),
           ''MixerNode'' := Node_init MixerNode None)\<rparr>)"

section \<open>Further stages and graphs, for the examples below\<close>

text \<open>
  Five more stages. Four are functions: one that returns the integer 3 instead of a
  mapping, one that raises, one that returns the empty mapping, and one that returns
  a mapping with a new, empty list under the key \<^verbatim>\<open>"trace"\<close>. The fifth is
  \<^verbatim>\<open>functools.partial(non_mapping)\<close>, a callable without \<^verbatim>\<open>__name__\<close> that
  returns the integer 3 as well.
\<close>

definition partial_stage :: stage where
  "partial_stage = \<lparr>stage_name = None, stage_call = (\<lambda>kw. Returns (PInt 3))\<rparr>"

definition non_mapping_stage :: stage where
  "non_mapping_stage = \<lparr>stage_name = Some ''non_mapping'', stage_call = (\<lambda>kw. Returns (PInt 3))\<rparr>"

definition raising_stage :: stage where
  "raising_stage = \<lparr>stage_name = Some ''raising'', stage_call = (\<lambda>kw. Raises)\<rparr>"

definition empty_stage :: stage where
  "empty_stage = \<lparr>stage_name = Some ''empty'', stage_call = (\<lambda>kw. Returns (PDict []))\<rparr>"


text \<open>
  \<^verbatim>\<open>Pipe(value={"passthrough": 10}) | adder | non_mapping | square_value\<close>.
\<close>

definition failing_pipe :: Pipe where
  "failing_pipe =
     Pipe_or (Pipe_or (Pipe_or (Pipe_init [(''passthrough'', PInt 10)] False [])
       adder_stage) non_mapping_stage) squarer_stage"

text \<open>
  \<^verbatim>\<open>Pipe(value={"passthrough": 10}) | adder | functools.partial(non_mapping) | square_value\<close>.
\<close>

definition nameless_pipe :: Pipe where
  "nameless_pipe =
     Pipe_or (Pipe_or (Pipe_or (Pipe_init [(''passthrough'', PInt 10)] False [])
       adder_stage) partial_stage) squarer_stage"

text \<open>
  Two traced pipes of three stages, \<^verbatim>\<open>Pipe(value={"passthrough": 10}, trace=True)\<close>
  with the adder, \<^verbatim>\<open>square_value\<close> and the empty stage, and
  \<^verbatim>\<open>Pipe(trace=True)\<close> with the stage that stores a new list under
  \<^verbatim>\<open>"trace"\<close> and twice the empty stage.
\<close>

definition traced_pipe :: Pipe where
  "traced_pipe =
     Pipe_init [(''passthrough'', PInt 10)] True [adder_stage, squarer_stage, empty_stage]"


text \<open>
  A \<^verbatim>\<open>ProcessingNode\<close> \<^verbatim>\<open>P\<close> with data \<open>d\<close> and the pipeline
  \<^verbatim>\<open>Pipe() | raising\<close>, connected to the nodes of the list \<open>neighbours\<close>. \<^verbatim>\<open>Q\<close> is an
  instance of the base class \<^verbatim>\<open>Node\<close>, \<^verbatim>\<open>E\<close> is a data node without data and
  \<^verbatim>\<open>D\<close> a data node that holds \<^verbatim>\<open>{"old": 0}\<close>.
\<close>

definition failing_node_store :: "dict \<Rightarrow> string list \<Rightarrow> store" where
  "failing_node_store d neighbours =
     connect_to [''P''] neighbours
       (set_pipeline ''P'' 0
          (blank_store\<lparr>
             nodes := (nodes blank_store)
               (''P'' := Node_init ProcessingNode (Some d),
                ''Q'' := Node_init Node None,
                ''E'' := Node_init DataNode None,
                ''D'' := Node_init DataNode (Some [(''old'', PInt 0)])),
             pipes := (pipes blank_store)
               (0 := Pipe_or (Pipe_init [] False []) raising_stage)\<rparr>))"

text \<open>
  A \<^verbatim>\<open>DataNode\<close> \<^verbatim>\<open>A\<close> with data \<open>d\<close>, connected to the data nodes \<^verbatim>\<open>B\<close>, which
  holds \<^verbatim>\<open>{"old": 0}\<close>, and \<^verbatim>\<open>C\<close>.
\<close>

definition data_node_store :: "dict option \<Rightarrow> store" where
  "data_node_store d =
     connect_to [''A''] [''B'', ''C'']
       (blank_store\<lparr>
          nodes := (nodes blank_store)
            (''A'' := Node_init DataNode d,
             ''B'' := Node_init DataNode (Some [(''old'', PInt 0)]),
             ''C'' := Node_init DataNode None)\<rparr>)"

section \<open>Dictionary lemmas\<close>

lemma dict_get_setitem:
  "dict_get (dict_setitem key v d) k = (if k = key then Some v else dict_get d k)"
  by (induction d) (auto simp: dict_get_def)

lemma keys_setitem: "fst ` set (dict_setitem key v d) = insert key (fst ` set d)"
  by (induction key v d rule: dict_setitem.induct) (simp_all add: insert_commute)

lemma dict_get_None_iff: "dict_get d k = None \<longleftrightarrow> k \<notin> fst ` set d"
  by (simp add: dict_get_def map_of_eq_None_iff)



section \<open>The merge law\<close>



section \<open>Iteration orders\<close>

lemma iterate_members:
  "finite S \<Longrightarrow> set (iterate it n S) = S \<and> distinct (iterate it n S)"
  using iterate [of it] by simp

lemma iterate_empty: "iterate it n {} = []"
  using iterate_members [of "{}" it n] by simp

lemma iterate_single: "iterate it n {a} = [a]"
proof -
  have "set (iterate it n {a}) = {a}" and "distinct (iterate it n {a})"
    using iterate_members [of "{a}" it n] by simp_all
  then show ?thesis
    by (cases "iterate it n {a}") (auto simp: subset_singleton_iff split: if_splits)
qed

lemma distinct_pair_cases:
  assumes "set xs = {a, b}" and "distinct xs" and "a \<noteq> b"
  shows "xs = [a, b] \<or> xs = [b, a]"
proof -
  from assms have "length xs = 2"
    using distinct_card [of xs] by simp
  then obtain x y where xs: "xs = [x, y]"
    by (cases xs; cases "tl xs") auto
  with assms show ?thesis
    by (auto simp: doubleton_eq_iff)
qed

lemma iterate_two:
  "a \<noteq> b \<Longrightarrow> iterate it n {a, b} = [a, b] \<or> iterate it n {a, b} = [b, a]"
  using iterate_members [of "{a, b}" it n] by (intro distinct_pair_cases) simp_all

section \<open>Wiring lemmas\<close>

text \<open>
  \<^verbatim>\<open>a.add_output(b)\<close> in closed form: the third call of the mutual recursion finds
  the edge and returns.
\<close>

lemma add_output_unfold:
  "add_output a b st =
     (if b \<in> outputs (nodes st a) then st
      else let st1 = st\<lparr>nodes := (nodes st)(a := (nodes st a)\<lparr>outputs := insert b (outputs (nodes st a))\<rparr>)\<rparr>
           in if a \<in> inputs (nodes st1 b) then st1
              else st1\<lparr>nodes := (nodes st1)(b := (nodes st1 b)\<lparr>inputs := insert a (inputs (nodes st1 b))\<rparr>)\<rparr>)"
  by (simp add: add_output.simps add_input.simps WeakSet_add_def Let_def)

section \<open>MixerNode.process with two inputs\<close>

lemma mixer_inputs: "inputs (nodes mixer_store ''MixerNode'') = {''A'', ''B''}"
  by (auto simp: mixer_store_def blank_store_def Node_init_def add_output_unfold Let_def)

lemma mixer_kind: "kind (nodes mixer_store ''MixerNode'') = MixerNode"
  by (simp add: mixer_store_def blank_store_def Node_init_def add_output_unfold Let_def)

lemma mixer_data:
  "data (nodes mixer_store ''A'') = Some [(''a'', PInt 1)] \<and>
   data (nodes mixer_store ''B'') = Some [(''a'', PInt 2)]"
  by (simp add: mixer_store_def blank_store_def Node_init_def add_output_unfold Let_def)

text \<open>
  C1. A \<^verbatim>\<open>MixerNode\<close> with the two inputs \<^verbatim>\<open>A\<close> (data \<^verbatim>\<open>{a: 1}\<close>) and \<^verbatim>\<open>B\<close>
  (data \<^verbatim>\<open>{a: 2}\<close>): \<^verbatim>\<open>process()\<close> does not merge and does not propagate. The
  subscript \<^verbatim>\<open>self.inputs[0]\<close> raises \<^verbatim>\<open>TypeError\<close>, which leaves the call with the
  store as it was: the node's data is still absent.
\<close>

theorem MixerNode_process_raises:
  "card (inputs (nodes mixer_store ''MixerNode'')) = 2
   \<and> data (nodes mixer_store ''A'') = Some [(''a'', PInt 1)]
   \<and> data (nodes mixer_store ''B'') = Some [(''a'', PInt 2)]
   \<and> process it (Suc depth) ''MixerNode'' mixer_store = (Some TypeError, mixer_store)
   \<and> data (nodes mixer_store ''MixerNode'') = None"
  by (simp add: mixer_inputs mixer_kind mixer_data WeakSet_getitem_def)
     (simp add: mixer_store_def blank_store_def Node_init_def add_output_unfold Let_def)

section \<open>The loop of Pipe.\_\_call\_\_\<close>

lemma call_loop_append:
  "call_loop pre p = (Inr (Some r), p') \<Longrightarrow> call_loop (pre @ fs) p = call_loop fs p'"
  by (induction pre arbitrary: p) (auto split: prod.splits step.splits)

lemma stage_calls_append:
  "call_loop pre p = (Inr (Some r), p') \<Longrightarrow>
   stage_calls (pre @ fs) p = stage_calls pre p @ stage_calls fs p'"
  by (induction pre arbitrary: p) (auto split: prod.splits step.splits)

lemma call_loop_result:
  "call_loop fs p = (Inr (Some r), p') \<Longrightarrow> r = pipe_value p'"
  by (induction fs arbitrary: p) (auto split: prod.splits step.splits)

lemma Pipe_step_fails:
  "stage_call s (pipe_value p) = Raises \<or>
   (\<exists>v. stage_call s (pipe_value p) = Returns v \<and> \<not> is_dict v) \<Longrightarrow>
   Pipe_step s p = except_clause s p"
  by (auto simp: Pipe_step_def split: pyval.splits)

text \<open>
  A call that fails at a stage. Let the stages of a pipe be \<open>pre\<close>, then \<open>s\<close>, then \<open>post\<close>, let the stages \<open>pre\<close> run
  through and leave the pipe as \<open>p'\<close> with the bag \<open>r\<close>, and let \<open>s\<close>, called with
  that bag, raise or return a value that is no mapping. Then no stage of \<open>post\<close> is
  invoked and the bag is the one that the stages before \<open>s\<close> left; the call
  returns \<^verbatim>\<open>None\<close> when \<open>s\<close> has a \<^verbatim>\<open>__name__\<close> and raises
  \<^verbatim>\<open>AttributeError\<close> when it has none.
\<close>

lemma call_fails_at_stage:
  assumes "pipe_functions p = pre @ s # post"
    and "call_loop pre p = (Inr (Some r), p')"
    and "stage_call s (pipe_value p') = Raises \<or>
         (\<exists>v. stage_call s (pipe_value p') = Returns v \<and> \<not> is_dict v)"
  shows "Pipe_call p =
           (case stage_name s of Some nm \<Rightarrow> Inr None | None \<Rightarrow> Inl AttributeError, p')
       \<and> pipe_value p' = r
       \<and> stage_calls (pipe_functions p) p = stage_calls pre p @ [(stage_name s, r)]"
proof -
  have r: "r = pipe_value p'" using assms(2) by (rule call_loop_result)
  have f: "Pipe_step s p' = except_clause s p'" using assms(3) by (rule Pipe_step_fails)
  show ?thesis
    using assms(1) call_loop_append [OF assms(2), of "s # post"]
      stage_calls_append [OF assms(2), of "s # post"] r f
    by (simp add: Pipe_call_def except_clause_def split: option.splits)
qed

lemma adder_call_10:
  "stage_call adder_stage [(''passthrough'', PInt 10)] = Returns (PDict [(''passthrough'', PInt 15)])"
  by (simp add: adder_stage_def add_value_def dict_get_def)

lemma failing_pipe_returns_None:
  "Pipe_call failing_pipe = (Inr None, failing_pipe\<lparr>pipe_value := [(''passthrough'', PInt 15)]\<rparr>)
   \<and> stage_calls (pipe_functions failing_pipe) failing_pipe
       = [(Some ''<lambda>'', [(''passthrough'', PInt 10)]),
          (Some ''non_mapping'', [(''passthrough'', PInt 15)])]"
  by (simp add: failing_pipe_def Pipe_call_def Pipe_or_def Pipe_init_def Pipe_step_def
        except_clause_def adder_call_10 non_mapping_stage_def)
     (simp add: adder_stage_def)

text \<open>
  C2. The pipe \<open>nameless_pipe\<close> has the stages adder,
  \<^verbatim>\<open>functools.partial(non_mapping)\<close> and \<^verbatim>\<open>square_value\<close> and the bag
  \<^verbatim>\<open>{passthrough: 10}\<close>. The second stage returns the integer 3. The call does not
  return \<^verbatim>\<open>None\<close>: the \<^verbatim>\<open>except\<close> clause reads \<^verbatim>\<open>func.__name__\<close>, which the
  stage does not have, and \<^verbatim>\<open>AttributeError\<close> leaves the call. The third stage is
  not invoked and the bag is the one the adder left, \<^verbatim>\<open>{passthrough: 15}\<close>.
\<close>

theorem Pipe_call_nameless_stage_raises:
  "pipe_functions nameless_pipe = [adder_stage, partial_stage, squarer_stage]
   \<and> pipe_value nameless_pipe = [(''passthrough'', PInt 10)]
   \<and> stage_name partial_stage = None
   \<and> stage_call partial_stage [(''passthrough'', PInt 15)] = Returns (PInt 3)
   \<and> Pipe_call nameless_pipe
       = (Inl AttributeError, nameless_pipe\<lparr>pipe_value := [(''passthrough'', PInt 15)]\<rparr>)
   \<and> stage_calls (pipe_functions nameless_pipe) nameless_pipe
       = [(Some ''<lambda>'', [(''passthrough'', PInt 10)]), (None, [(''passthrough'', PInt 15)])]"
  by (simp add: nameless_pipe_def Pipe_call_def Pipe_or_def Pipe_init_def Pipe_step_def
        except_clause_def adder_call_10 partial_stage_def)
     (simp add: adder_stage_def)

text \<open>A pipe whose stages all have a name raises nothing.\<close>

lemma Pipe_step_named:
  "stage_name f \<noteq> None \<Longrightarrow> fst (Pipe_step f p) \<noteq> Raise e"
  by (auto simp: Pipe_step_def except_clause_def Let_def
           split: stage_result.splits pyval.splits option.splits)

lemma call_loop_named:
  "\<forall>f \<in> set fs. stage_name f \<noteq> None \<Longrightarrow> fst (call_loop fs p) \<noteq> Inl e"
proof (induction fs arbitrary: p)
  case Nil
  show ?case by simp
next
  case (Cons f fs)
  then have "fst (Pipe_step f p) \<noteq> Raise e" for e
    by (simp add: Pipe_step_named)
  with Cons show ?case
    by (cases "Pipe_step f p") (auto split: step.splits)
qed

section \<open>The trace of a pipe\<close>

lemma keys_dict_update: "fst ` set (dict_update d r) = fst ` set d \<union> fst ` set r"
  by (induction d r rule: dict_update.induct) (auto simp: keys_setitem)





lemma Pipe_step_keys:
  "k \<in> fst ` set (pipe_value p) \<Longrightarrow> k \<in> fst ` set (pipe_value (snd (Pipe_step f p)))"
  by (auto simp: Pipe_step_def except_clause_def Let_def keys_dict_update keys_setitem
           split: stage_result.splits pyval.splits option.splits)

lemma call_loop_keys:
  "k \<in> fst ` set (pipe_value p) \<Longrightarrow> k \<in> fst ` set (pipe_value (snd (call_loop fs p)))"
proof (induction fs arbitrary: p)
  case Nil
  then show ?case by simp
next
  case (Cons f fs)
  from Cons.prems have "k \<in> fst ` set (pipe_value (snd (Pipe_step f p)))"
    by (rule Pipe_step_keys)
  with Cons.IH [of "snd (Pipe_step f p)"] show ?case
    by (cases "Pipe_step f p") (auto split: step.splits)
qed

lemma stage_calls_keys:
  "k \<in> fst ` set (pipe_value p) \<Longrightarrow> (nm, kw) \<in> set (stage_calls fs p) \<Longrightarrow> k \<in> fst ` set kw"
proof (induction fs arbitrary: p)
  case Nil
  then show ?case by simp
next
  case (Cons f fs)
  from Cons.prems(1) have "k \<in> fst ` set (pipe_value (snd (Pipe_step f p)))"
    by (rule Pipe_step_keys)
  with Cons.IH [of "snd (Pipe_step f p)"] Cons.prems show ?case
    by (cases "Pipe_step f p") (auto split: step.splits)
qed

text \<open>
  C10. A pipe constructed with \<^verbatim>\<open>trace=True\<close> holds the trace in its bag, under the
  key \<^verbatim>\<open>"trace"\<close>. For every pipe whose bag has that key: every stage invocation
  of a call receives the key among its keyword arguments, the mapping that a
  successful call returns has the key, and the bag still has the key after the call,
  successful or not.
\<close>

theorem trace_stored_in_bag:
  "dict_get (pipe_value (Pipe_init v True fs)) ''trace'' = Some (PList [trace_entry ''input'' v])
   \<and> (dict_get (pipe_value p) ''trace'' \<noteq> None \<longrightarrow>
        (\<forall>(nm, kw) \<in> set (stage_calls (pipe_functions p) p). dict_get kw ''trace'' \<noteq> None)
      \<and> (\<forall>r p'. Pipe_call p = (Inr (Some r), p') \<longrightarrow> dict_get r ''trace'' \<noteq> None)
      \<and> dict_get (pipe_value (snd (Pipe_call p))) ''trace'' \<noteq> None)"
proof -
  have init: "dict_get (pipe_value (Pipe_init v True fs)) ''trace''
                = Some (PList [trace_entry ''input'' v])"
    by (simp add: Pipe_init_def dict_get_setitem)
  have inv: "dict_get (pipe_value (snd (Pipe_call p))) ''trace'' \<noteq> None"
    if "dict_get (pipe_value p) ''trace'' \<noteq> None"
    using that call_loop_keys [of "''trace''" p "pipe_functions p"]
    by (simp add: dict_get_None_iff Pipe_call_def)
  have res: "dict_get r ''trace'' \<noteq> None"
    if "dict_get (pipe_value p) ''trace'' \<noteq> None" "Pipe_call p = (Inr (Some r), p')" for r p'
  proof -
    from that(2) have "r = pipe_value p'"
      by (simp add: Pipe_call_def call_loop_result)
    with inv [OF that(1)] that(2) show ?thesis by simp
  qed
  have calls: "dict_get kw ''trace'' \<noteq> None"
    if "dict_get (pipe_value p) ''trace'' \<noteq> None"
       "(nm, kw) \<in> set (stage_calls (pipe_functions p) p)" for nm kw
    using that stage_calls_keys [of "''trace''" p nm kw "pipe_functions p"]
    by (simp add: dict_get_None_iff)
  show ?thesis
    using init inv res calls by blast
qed

lemma traced_pipe_runs: "\<exists>r p'. Pipe_call traced_pipe = (Inr (Some r), p')"
  by (simp add: traced_pipe_def Pipe_call_def Pipe_init_def Pipe_step_def Let_def
        adder_stage_def squarer_stage_def empty_stage_def add_value_def square_value_def
        dict_get_def trace_entry_def)

theorem trace_stored_in_bag_witness:
  "dict_get (pipe_value traced_pipe) ''trace'' \<noteq> None
   \<and> (\<exists>r p'. Pipe_call traced_pipe = (Inr (Some r), p') \<and> dict_get r ''trace'' \<noteq> None)
   \<and> map (\<lambda>c. dict_get (snd c) ''trace'' = None)
         (stage_calls (pipe_functions traced_pipe) traced_pipe) = [False, False, False]"
proof -
  have h: "dict_get (pipe_value traced_pipe) ''trace'' \<noteq> None"
    by (simp add: traced_pipe_def Pipe_init_def dict_get_def)
  have n: "map (\<lambda>c. dict_get (snd c) ''trace'' = None)
         (stage_calls (pipe_functions traced_pipe) traced_pipe) = [False, False, False]"
    by (simp add: traced_pipe_def Pipe_init_def Pipe_step_def Let_def
        adder_stage_def squarer_stage_def empty_stage_def add_value_def square_value_def
        dict_get_def trace_entry_def)
  from trace_stored_in_bag [of "[]" "[]" traced_pipe] h n traced_pipe_runs show ?thesis
    by blast
qed







section \<open>process\<close>

lemma truthy_iff: "truthy d \<longleftrightarrow> d \<noteq> None \<and> d \<noteq> Some []"
  by (cases d) (simp_all add: truthy_def)

lemma propagate_visit_in_order:
  "propagate it depth self outs st =
     visit_in_order
       (\<lambda>out s. process it depth out
          (set_data out (case data (nodes s self) of
                           None \<Rightarrow> None
                         | Some d \<Rightarrow> if d = [] then None else Some d) s))
       outs st"
proof (induction outs arbitrary: st)
  case Nil
  show ?case by simp
next
  case (Cons out rest)
  have push: "(if truthy (data (nodes st self)) then data (nodes st self) else None)
      = (case data (nodes st self) of None \<Rightarrow> None | Some d \<Rightarrow> if d = [] then None else Some d)"
    by (cases "data (nodes st self)") (simp_all add: truthy_def)
  show ?case
    by (simp add: push Cons.IH split: prod.splits option.splits)
qed

text \<open>The stores of the examples, with the edges that \<^verbatim>\<open>connect_to\<close> made.\<close>

lemma data_node_store_eq:
  "data_node_store d =
     blank_store\<lparr>nodes := (nodes blank_store)
       (''A'' := (Node_init DataNode d)\<lparr>outputs := {''B'', ''C''}\<rparr>,
        ''B'' := (Node_init DataNode (Some [(''old'', PInt 0)]))\<lparr>inputs := {''A''}\<rparr>,
        ''C'' := (Node_init DataNode None)\<lparr>inputs := {''A''}\<rparr>)\<rparr>"
  by (simp add: data_node_store_def blank_store_def Node_init_def add_output_unfold Let_def
        fun_upd_twist insert_commute)

lemma failing_node_store_ED:
  "failing_node_store d [''E'', ''D''] =
     blank_store\<lparr>
       nodes := (nodes blank_store)
         (''P'' := (Node_init ProcessingNode (Some d))\<lparr>outputs := {''E'', ''D''}, pipeline := Some 0\<rparr>,
          ''Q'' := Node_init Node None,
          ''E'' := (Node_init DataNode None)\<lparr>inputs := {''P''}\<rparr>,
          ''D'' := (Node_init DataNode (Some [(''old'', PInt 0)]))\<lparr>inputs := {''P''}\<rparr>),
       pipes := (pipes blank_store)(0 := Pipe_or (Pipe_init [] False []) raising_stage)\<rparr>"
  by (simp add: failing_node_store_def blank_store_def Node_init_def add_output_unfold Let_def
        set_pipeline_def fun_upd_twist insert_commute)

lemma failing_node_store_Q:
  "failing_node_store d [''Q''] =
     blank_store\<lparr>
       nodes := (nodes blank_store)
         (''P'' := (Node_init ProcessingNode (Some d))\<lparr>outputs := {''Q''}, pipeline := Some 0\<rparr>,
          ''Q'' := (Node_init Node None)\<lparr>inputs := {''P''}\<rparr>,
          ''E'' := Node_init DataNode None,
          ''D'' := Node_init DataNode (Some [(''old'', PInt 0)])),
       pipes := (pipes blank_store)(0 := Pipe_or (Pipe_init [] False []) raising_stage)\<rparr>"
  by (simp add: failing_node_store_def blank_store_def Node_init_def add_output_unfold Let_def
        set_pipeline_def fun_upd_twist)

text \<open>
  C4, as amended. \<^verbatim>\<open>process()\<close> of a \<^verbatim>\<open>DataNode\<close> appends a snapshot of present
  data to the history and then visits the output neighbours in iteration order: the
  neighbour's data is set to a copy of this node's data, or to absent when this
  node's data is absent or empty, and the neighbour's \<^verbatim>\<open>process()\<close> runs to its end
  before the next neighbour is visited. A neighbour whose \<^verbatim>\<open>process()\<close> raises ends
  the visits, and the exception leaves this node's \<^verbatim>\<open>process()\<close>.
\<close>

theorem DataNode_process:
  assumes "kind (nodes st self) = DataNode"
  shows "process it (Suc depth) self st =
     visit_in_order
       (\<lambda>out s. process it depth out
          (set_data out (case data (nodes s self) of
                           None \<Rightarrow> None
                         | Some d \<Rightarrow> if d = [] then None else Some d) s))
       (iterate it self (outputs (nodes st self)))
       (case data (nodes st self) of
          None \<Rightarrow> st
        | Some d \<Rightarrow> st\<lparr>nodes := (nodes st)(self := (nodes st self)
                        \<lparr>data_history := data_history (nodes st self) @ [Some d]\<rparr>)\<rparr>)"
proof -
  have "outputs (nodes (record_history self st) self) = outputs (nodes st self)"
    by (simp add: record_history_def split: option.splits)
  then show ?thesis
    using assms
    by (simp add: propagate_visit_in_order [symmetric])
       (simp add: record_history_def split: option.splits)
qed

text \<open>
  \<^verbatim>\<open>A\<close> with data \<^verbatim>\<open>{x: 1}\<close> and the neighbours \<^verbatim>\<open>B\<close> and \<^verbatim>\<open>C\<close>, in whichever
  order the iteration yields them.
\<close>

theorem DataNode_process_witness:
  "kind (nodes (data_node_store (Some [(''x'', PInt 1)])) ''A'') = DataNode
   \<and> fst (process ascending (Suc (Suc 0)) ''A'' (data_node_store (Some [(''x'', PInt 1)]))) = None
   \<and> map (\<lambda>n. data (nodes (snd (process ascending (Suc (Suc 0)) ''A''
                 (data_node_store (Some [(''x'', PInt 1)])))) n)) [''A'', ''B'', ''C'']
       = [Some [(''x'', PInt 1)], Some [(''x'', PInt 1)], Some [(''x'', PInt 1)]]
   \<and> map (\<lambda>n. data_history (nodes (snd (process ascending (Suc (Suc 0)) ''A''
                 (data_node_store (Some [(''x'', PInt 1)])))) n)) [''A'', ''B'', ''C'']
       = [[Some [(''x'', PInt 1)]], [Some [(''x'', PInt 1)]], [Some [(''x'', PInt 1)]]]"
proof -
  have k: "kind (nodes (data_node_store (Some [(''x'', PInt 1)])) ''A'') = DataNode"
    by (simp add: data_node_store_eq blank_store_def Node_init_def)
  have out: "outputs (nodes (data_node_store (Some [(''x'', PInt 1)])) ''A'') = {''B'', ''C''}"
    by (simp add: data_node_store_eq blank_store_def Node_init_def)
  note eq = DataNode_process [OF k, of ascending "Suc 0", unfolded out]
  from iterate_two [of "''B''" "''C''" ascending "''A''"]
  have "iterate ascending ''A'' {''B'', ''C''} = [''B'', ''C''] \<or>
        iterate ascending ''A'' {''B'', ''C''} = [''C'', ''B'']"
    by simp
  then show ?thesis
  proof
    assume o: "iterate ascending ''A'' {''B'', ''C''} = [''B'', ''C'']"
    show ?thesis
      unfolding eq o
      by (simp add: data_node_store_eq blank_store_def Node_init_def set_data_def
            record_history_def iterate_empty)
  next
    assume o: "iterate ascending ''A'' {''B'', ''C''} = [''C'', ''B'']"
    show ?thesis
      unfolding eq o
      by (simp add: data_node_store_eq blank_store_def Node_init_def set_data_def
            record_history_def iterate_empty)
  qed
qed

text \<open>
  The claim C4 as it stands fails for present, empty data: \<^verbatim>\<open>A\<close> holds \<^verbatim>\<open>{}\<close>,
  which goes to its history, and its neighbour \<^verbatim>\<open>B\<close>, which held \<^verbatim>\<open>{"old": 0}\<close>, is
  left with absent data, not with a copy of \<^verbatim>\<open>{}\<close>. The order of the two
  neighbours makes no difference.
\<close>

lemma empty_data_pushed_as_absent:
  "fst (process it (Suc (Suc 0)) ''A'' (data_node_store (Some []))) = None
   \<and> data_history (nodes (snd (process it (Suc (Suc 0)) ''A'' (data_node_store (Some [])))) ''A'')
       = [Some []]
   \<and> data (nodes (snd (process it (Suc (Suc 0)) ''A'' (data_node_store (Some [])))) ''B'') = None"
proof -
  from iterate_two [of "''B''" "''C''" it "''A''"]
  have "iterate it ''A'' {''B'', ''C''} = [''B'', ''C''] \<or>
        iterate it ''A'' {''B'', ''C''} = [''C'', ''B'']"
    by simp
  then show ?thesis
    by (elim disjE)
       (simp_all add: data_node_store_eq blank_store_def Node_init_def set_data_def
          record_history_def truthy_def iterate_empty)
qed

theorem DataNode_process_counterexample:
  "data (nodes (data_node_store (Some [])) ''A'') = Some []
   \<and> data (nodes (data_node_store (Some [])) ''B'') = Some [(''old'', PInt 0)]
   \<and> fst (process ascending (Suc (Suc 0)) ''A'' (data_node_store (Some []))) = None
   \<and> data_history (nodes (snd (process ascending (Suc (Suc 0)) ''A''
             (data_node_store (Some [])))) ''A'') = [Some []]
   \<and> data (nodes (snd (process ascending (Suc (Suc 0)) ''A''
             (data_node_store (Some [])))) ''B'') = None"
  using empty_data_pushed_as_absent [of ascending]
  by (simp add: data_node_store_eq blank_store_def Node_init_def)

text \<open>
  C3, as amended. A \<^verbatim>\<open>ProcessingNode\<close> has data and a pipeline whose stages all
  have a \<^verbatim>\<open>__name__\<close>, and the run of the pipeline on the bag merged with the data
  does not succeed. Then the run returns \<^verbatim>\<open>None\<close> and raises nothing;
  \<^verbatim>\<open>process()\<close> changes nothing but the pipe before it propagates, so the node keeps
  its data; and the output neighbours are visited as those of a \<^verbatim>\<open>DataNode\<close> are:
  in iteration order, each set to a copy of the node's data, or to absent when that
  data is empty, and processed to its end. A neighbour whose \<^verbatim>\<open>process()\<close> raises
  ends the visits, and that exception leaves this node's \<^verbatim>\<open>process()\<close>.
\<close>

theorem ProcessingNode_failed_run:
  assumes "kind (nodes st self) = ProcessingNode"
    and "data (nodes st self) = Some d"
    and "pipeline (nodes st self) = Some pid"
    and "\<forall>s \<in> set (pipe_functions (pipes st pid)). stage_name s \<noteq> None"
    and "\<forall>r. fst (Pipe_call ((pipes st pid)
                   \<lparr>pipe_value := dict_update (pipe_value (pipes st pid)) d\<rparr>)) \<noteq> Inr (Some r)"
  shows "fst (Pipe_call ((pipes st pid)
                \<lparr>pipe_value := dict_update (pipe_value (pipes st pid)) d\<rparr>)) = Inr None
     \<and> process it (Suc depth) self st =
         visit_in_order
           (\<lambda>out s. process it depth out
              (set_data out (case data (nodes s self) of
                               None \<Rightarrow> None
                             | Some d \<Rightarrow> if d = [] then None else Some d) s))
           (iterate it self (outputs (nodes st self)))
           (st\<lparr>pipes := (pipes st)(pid := snd (Pipe_call ((pipes st pid)
                  \<lparr>pipe_value := dict_update (pipe_value (pipes st pid)) d\<rparr>)))\<rparr>)
     \<and> data (nodes (st\<lparr>pipes := (pipes st)(pid := snd (Pipe_call ((pipes st pid)
                  \<lparr>pipe_value := dict_update (pipe_value (pipes st pid)) d\<rparr>)))\<rparr>) self)
         = Some d"
proof -
  let ?p = "(pipes st pid)\<lparr>pipe_value := dict_update (pipe_value (pipes st pid)) d\<rparr>"
  have "fst (Pipe_call ?p) \<noteq> Inl e" for e
    using assms(4) call_loop_named [of "pipe_functions ?p" ?p e]
    by (simp add: Pipe_call_def)
  with assms(5) have none: "fst (Pipe_call ?p) = Inr None"
    by (cases "fst (Pipe_call ?p)") auto
  then have "run_pipeline self st = (None, st\<lparr>pipes := (pipes st)(pid := snd (Pipe_call ?p))\<rparr>)"
    using assms(2,3)
    by (cases "Pipe_call ?p") (simp add: run_pipeline_def Let_def truthy_def)
  then show ?thesis
    using assms(1,2) none by (simp add: propagate_visit_in_order [symmetric])
qed

lemma raising_pipe_fails:
  "Pipe_call (Pipe_or (Pipe_init [] False []) raising_stage\<lparr>pipe_value := v\<rparr>)
     = (Inr None, Pipe_or (Pipe_init [] False []) raising_stage\<lparr>pipe_value := v\<rparr>)"
  by (simp add: Pipe_call_def Pipe_or_def Pipe_init_def Pipe_step_def except_clause_def
        raising_stage_def)

text \<open>
  \<^verbatim>\<open>P\<close> with data \<^verbatim>\<open>{x: 1}\<close>, a pipeline whose only stage raises, and the neighbours
  \<^verbatim>\<open>E\<close> and \<^verbatim>\<open>D\<close>, in whichever order the iteration yields them.
\<close>

theorem ProcessingNode_failed_run_witness:
  "kind (nodes (failing_node_store [(''x'', PInt 1)] [''E'', ''D'']) ''P'') = ProcessingNode
   \<and> map stage_name (pipe_functions (pipes (failing_node_store [(''x'', PInt 1)] [''E'', ''D'']) 0))
       = [Some ''raising'']
   \<and> fst (Pipe_call ((pipes (failing_node_store [(''x'', PInt 1)] [''E'', ''D'']) 0)
            \<lparr>pipe_value := [(''x'', PInt 1)]\<rparr>)) = Inr None
   \<and> fst (process ascending (Suc (Suc 0)) ''P''
            (failing_node_store [(''x'', PInt 1)] [''E'', ''D''])) = None
   \<and> map (\<lambda>n. data (nodes (snd (process ascending (Suc (Suc 0)) ''P''
                 (failing_node_store [(''x'', PInt 1)] [''E'', ''D'']))) n)) [''P'', ''E'', ''D'']
       = [Some [(''x'', PInt 1)], Some [(''x'', PInt 1)], Some [(''x'', PInt 1)]]
   \<and> map (\<lambda>n. data_history (nodes (snd (process ascending (Suc (Suc 0)) ''P''
                 (failing_node_store [(''x'', PInt 1)] [''E'', ''D'']))) n)) [''E'', ''D'']
       = [[Some [(''x'', PInt 1)]], [Some [(''x'', PInt 1)]]]"
proof -
  let ?st = "failing_node_store [(''x'', PInt 1)] [''E'', ''D'']"
  let ?p = "Pipe_or (Pipe_init [] False []) raising_stage\<lparr>pipe_value := [(''x'', PInt 1)]\<rparr>"
  have k: "kind (nodes ?st ''P'') = ProcessingNode"
    and d: "data (nodes ?st ''P'') = Some [(''x'', PInt 1)]"
    and p: "pipeline (nodes ?st ''P'') = Some 0"
    and out: "outputs (nodes ?st ''P'') = {''E'', ''D''}"
    by (simp_all add: failing_node_store_ED blank_store_def Node_init_def)
  have pv: "(pipes ?st 0)\<lparr>pipe_value := dict_update (pipe_value (pipes ?st 0)) [(''x'', PInt 1)]\<rparr> = ?p"
    and pv': "(pipes ?st 0)\<lparr>pipe_value := [(''x'', PInt 1)]\<rparr> = ?p"
    by (simp_all add: failing_node_store_ED blank_store_def Pipe_or_def Pipe_init_def)
  have names: "map stage_name (pipe_functions (pipes ?st 0)) = [Some ''raising'']"
    by (simp add: failing_node_store_ED blank_store_def Pipe_or_def Pipe_init_def
          raising_stage_def)
  have named: "\<forall>s \<in> set (pipe_functions (pipes ?st 0)). stage_name s \<noteq> None"
    by (simp add: failing_node_store_ED blank_store_def Pipe_or_def Pipe_init_def
          raising_stage_def)
  have failed: "\<forall>r. fst (Pipe_call ((pipes ?st 0)\<lparr>pipe_value :=
                   dict_update (pipe_value (pipes ?st 0)) [(''x'', PInt 1)]\<rparr>)) \<noteq> Inr (Some r)"
    unfolding pv by (simp add: raising_pipe_fails)
  note T = ProcessingNode_failed_run [OF k d p named failed, of ascending "Suc 0",
             unfolded pv out raising_pipe_fails snd_conv fst_conv]
  from T have eq: "process ascending (Suc (Suc 0)) ''P'' ?st =
         visit_in_order
           (\<lambda>out s. process ascending (Suc 0) out
              (set_data out (case data (nodes s ''P'') of
                               None \<Rightarrow> None
                             | Some d \<Rightarrow> if d = [] then None else Some d) s))
           (iterate ascending ''P'' {''E'', ''D''})
           (?st\<lparr>pipes := (pipes ?st)(0 := ?p)\<rparr>)"
    by blast
  have run: "fst (Pipe_call ((pipes ?st 0)\<lparr>pipe_value := [(''x'', PInt 1)]\<rparr>)) = Inr None"
    unfolding pv' by (simp add: raising_pipe_fails)
  from iterate_two [of "''E''" "''D''" ascending "''P''"]
  have "iterate ascending ''P'' {''E'', ''D''} = [''E'', ''D''] \<or>
        iterate ascending ''P'' {''E'', ''D''} = [''D'', ''E'']"
    by simp
  then have res: "fst (process ascending (Suc (Suc 0)) ''P'' ?st) = None
   \<and> map (\<lambda>n. data (nodes (snd (process ascending (Suc (Suc 0)) ''P'' ?st)) n)) [''P'', ''E'', ''D'']
       = [Some [(''x'', PInt 1)], Some [(''x'', PInt 1)], Some [(''x'', PInt 1)]]
   \<and> map (\<lambda>n. data_history (nodes (snd (process ascending (Suc (Suc 0)) ''P'' ?st)) n)) [''E'', ''D'']
       = [[Some [(''x'', PInt 1)]], [Some [(''x'', PInt 1)]]]"
    unfolding eq
    by (elim disjE)
       (simp_all add: failing_node_store_ED blank_store_def Node_init_def set_data_def
          record_history_def iterate_empty)
  from k names run res show ?thesis by blast
qed

text \<open>
  The claim C3 as it stands fails twice, whatever the iteration order. With empty
  data \<^verbatim>\<open>{}\<close> at \<^verbatim>\<open>P\<close>, whose run fails, both neighbours are left with absent
  data, not with the data of \<^verbatim>\<open>P\<close>: \<^verbatim>\<open>D\<close> loses \<^verbatim>\<open>{"old": 0}\<close>. And with the
  base-class node \<^verbatim>\<open>Q\<close> as the only neighbour of \<^verbatim>\<open>P\<close>, \<^verbatim>\<open>Q.process()\<close> raises
  \<^verbatim>\<open>NotImplementedError\<close>, which leaves \<^verbatim>\<open>P.process()\<close>.
\<close>

lemma failed_run_empty_data:
  "fst (process it (Suc (Suc 0)) ''P'' (failing_node_store [] [''E'', ''D''])) = None
   \<and> data (nodes (snd (process it (Suc (Suc 0)) ''P''
             (failing_node_store [] [''E'', ''D'']))) ''P'') = Some []
   \<and> data (nodes (snd (process it (Suc (Suc 0)) ''P''
             (failing_node_store [] [''E'', ''D'']))) ''E'') = None
   \<and> data (nodes (snd (process it (Suc (Suc 0)) ''P''
             (failing_node_store [] [''E'', ''D'']))) ''D'') = None"
proof -
  from iterate_two [of "''E''" "''D''" it "''P''"]
  have "iterate it ''P'' {''E'', ''D''} = [''E'', ''D''] \<or>
        iterate it ''P'' {''E'', ''D''} = [''D'', ''E'']"
    by simp
  then show ?thesis
    by (elim disjE)
       (simp_all add: failing_node_store_ED blank_store_def Node_init_def set_data_def
          record_history_def run_pipeline_def truthy_def Let_def iterate_empty
          Pipe_call_def Pipe_or_def Pipe_init_def Pipe_step_def except_clause_def
          raising_stage_def)
qed

theorem ProcessingNode_failed_run_counterexample:
  "data (nodes (failing_node_store [] [''E'', ''D'']) ''P'') = Some []
   \<and> data (nodes (failing_node_store [] [''E'', ''D'']) ''D'') = Some [(''old'', PInt 0)]
   \<and> fst (Pipe_call ((pipes (failing_node_store [] [''E'', ''D'']) 0)\<lparr>pipe_value := []\<rparr>))
       = Inr None
   \<and> fst (process ascending (Suc (Suc 0)) ''P'' (failing_node_store [] [''E'', ''D''])) = None
   \<and> data (nodes (snd (process ascending (Suc (Suc 0)) ''P''
             (failing_node_store [] [''E'', ''D'']))) ''P'') = Some []
   \<and> data (nodes (snd (process ascending (Suc (Suc 0)) ''P''
             (failing_node_store [] [''E'', ''D'']))) ''E'') = None
   \<and> data (nodes (snd (process ascending (Suc (Suc 0)) ''P''
             (failing_node_store [] [''E'', ''D'']))) ''D'') = None
   \<and> outputs (nodes (failing_node_store [(''x'', PInt 1)] [''Q'']) ''P'') = {''Q''}
   \<and> fst (Pipe_call ((pipes (failing_node_store [(''x'', PInt 1)] [''Q'']) 0)
            \<lparr>pipe_value := [(''x'', PInt 1)]\<rparr>)) = Inr None
   \<and> fst (process ascending (Suc (Suc 0)) ''P'' (failing_node_store [(''x'', PInt 1)] [''Q'']))
       = Some NotImplementedError"
proof -
  have a: "data (nodes (failing_node_store [] [''E'', ''D'']) ''P'') = Some []
     \<and> data (nodes (failing_node_store [] [''E'', ''D'']) ''D'') = Some [(''old'', PInt 0)]
     \<and> fst (Pipe_call ((pipes (failing_node_store [] [''E'', ''D'']) 0)\<lparr>pipe_value := []\<rparr>))
         = Inr None"
    by (simp add: failing_node_store_ED blank_store_def Node_init_def
          Pipe_call_def Pipe_or_def Pipe_init_def Pipe_step_def except_clause_def
          raising_stage_def)
  have b: "outputs (nodes (failing_node_store [(''x'', PInt 1)] [''Q'']) ''P'') = {''Q''}
     \<and> fst (Pipe_call ((pipes (failing_node_store [(''x'', PInt 1)] [''Q'']) 0)
            \<lparr>pipe_value := [(''x'', PInt 1)]\<rparr>)) = Inr None
     \<and> fst (process ascending (Suc (Suc 0)) ''P'' (failing_node_store [(''x'', PInt 1)] [''Q'']))
         = Some NotImplementedError"
    by (simp add: failing_node_store_Q blank_store_def Node_init_def set_data_def
          run_pipeline_def truthy_def Let_def iterate_single
          Pipe_call_def Pipe_or_def Pipe_init_def Pipe_step_def except_clause_def
          raising_stage_def)
  from a b failed_run_empty_data [of ascending] show ?thesis
    by blast
qed

text \<open>
  With a failing stage that has no \<^verbatim>\<open>__name__\<close> the run raises, and the exception
  leaves \<^verbatim>\<open>process()\<close> before any neighbour is visited.
\<close>

lemma ProcessingNode_run_raises:
  assumes "kind (nodes st self) = ProcessingNode"
    and "data (nodes st self) = Some d"
    and "pipeline (nodes st self) = Some pid"
    and "Pipe_call ((pipes st pid)\<lparr>pipe_value := dict_update (pipe_value (pipes st pid)) d\<rparr>)
           = (Inl e, p')"
  shows "process it (Suc depth) self st = (Some e, st\<lparr>pipes := (pipes st)(pid := p')\<rparr>)"
  using assms by (simp add: run_pipeline_def Let_def)

section \<open>Layer.process\<close>

lemma Layer_process_fold:
  "Layer_process it depth ns st = fold (\<lambda>n s. snd (process it depth n s)) ns st"
  by (induction ns arbitrary: st) (auto split: prod.splits option.splits)

text \<open>
  C8. \<^verbatim>\<open>Layer.process()\<close> runs \<^verbatim>\<open>process()\<close> of every node of the layer, in stored
  order, each on the store that the node before left; and when \<^verbatim>\<open>process()\<close> of a
  node \<open>n\<close> of the layer raises, no exception leaves the layer and the nodes after
  \<open>n\<close> are processed all the same, on the store as the failed call left it.
\<close>

theorem Layer_process_isolates_failures:
  "Layer_process it depth ns st = fold (\<lambda>n s. snd (process it depth n s)) ns st
   \<and> (fst (process it depth n (Layer_process it depth pre st)) = Some e \<longrightarrow>
        Layer_process it depth (pre @ n # post) st
          = Layer_process it depth post (snd (process it depth n (Layer_process it depth pre st))))"
  by (simp add: Layer_process_fold)

lemma Layer_process_single:
  "Layer_process it depth [n] st = snd (process it depth n st)"
  by (simp add: Layer_process_fold)

text \<open>
  A layer of the base-class node \<^verbatim>\<open>Q\<close>, whose \<^verbatim>\<open>process()\<close> raises, and the data
  node \<^verbatim>\<open>A\<close>: \<^verbatim>\<open>A\<close> is processed and propagates to \<^verbatim>\<open>B\<close> and \<^verbatim>\<open>C\<close>.
\<close>

theorem Layer_process_isolates_failures_witness:
  "fst (process ascending (Suc (Suc 0)) ''Q'' (data_node_store (Some [(''x'', PInt 1)])))
     = Some NotImplementedError
   \<and> map (\<lambda>n. data_history (nodes (Layer_process ascending (Suc (Suc 0)) [''Q'', ''A'']
                 (data_node_store (Some [(''x'', PInt 1)]))) n)) [''A'', ''B'', ''C'']
       = [[Some [(''x'', PInt 1)]], [Some [(''x'', PInt 1)]], [Some [(''x'', PInt 1)]]]"
proof -
  let ?st = "data_node_store (Some [(''x'', PInt 1)])"
  have q: "process ascending (Suc (Suc 0)) ''Q'' ?st = (Some NotImplementedError, ?st)"
    by (simp add: data_node_store_eq blank_store_def Node_init_def)
  note T = Layer_process_isolates_failures
      [of ascending "Suc (Suc 0)" "[]" ?st "''Q''" "[]" NotImplementedError "[''A'']",
       THEN conjunct2]
  have l: "Layer_process ascending (Suc (Suc 0)) [''Q'', ''A''] ?st
             = snd (process ascending (Suc (Suc 0)) ''A'' ?st)"
    using T
    by (simp only: Layer_process.simps(1) append_Nil q fst_conv snd_conv simp_thms
          Layer_process_single)
  from iterate_two [of "''B''" "''C''" ascending "''A''"]
  have "iterate ascending ''A'' {''B'', ''C''} = [''B'', ''C''] \<or>
        iterate ascending ''A'' {''B'', ''C''} = [''C'', ''B'']"
    by simp
  then have res: "map (\<lambda>n. data_history (nodes (snd (process ascending (Suc (Suc 0)) ''A'' ?st)) n))
                [''A'', ''B'', ''C'']
       = [[Some [(''x'', PInt 1)]], [Some [(''x'', PInt 1)]], [Some [(''x'', PInt 1)]]]"
    by (elim disjE)
       (simp_all add: data_node_store_eq blank_store_def Node_init_def set_data_def
          record_history_def truthy_def iterate_empty)
  show ?thesis
    unfolding l by (simp only: q fst_conv res simp_thms)
qed

section \<open>The linear chain of example.py\<close>

lemma chain_store_eq:
  "chain_store =
     \<lparr>nodes = (\<lambda>n. Node_init Node None)
        (''InputNode'' := (Node_init DataNode (Some [(''passthrough'', PInt 10)]))
                            \<lparr>outputs := {''AdderNode''}\<rparr>,
         ''AdderNode'' := (Node_init ProcessingNode None)
                            \<lparr>inputs := {''InputNode''}, outputs := {''SquarerNode''},
                             pipeline := Some 0\<rparr>,
         ''SquarerNode'' := (Node_init ProcessingNode None)
                            \<lparr>inputs := {''AdderNode''}, outputs := {''OutputNode''},
                             pipeline := Some 1\<rparr>,
         ''OutputNode'' := (Node_init DataNode None)\<lparr>inputs := {''SquarerNode''}\<rparr>),
      pipes = (\<lambda>i. Pipe_init [] False [])
        (0 := Pipe_or (Pipe_init [] False []) adder_stage,
         1 := Pipe_or (Pipe_init [] False []) squarer_stage)\<rparr>"
  by (simp add: chain_store_def chain_nodes_def Node_init_def add_output_unfold Let_def
        set_pipeline_def fun_upd_twist)

lemma adder_pipe_run:
  "Pipe_call (Pipe_or (Pipe_init [] False []) adder_stage\<lparr>pipe_value := [(''passthrough'', PInt 10)]\<rparr>)
     = (Inr (Some [(''passthrough'', PInt 15)]),
        Pipe_or (Pipe_init [] False []) adder_stage\<lparr>pipe_value := [(''passthrough'', PInt 15)]\<rparr>)"
  by (simp add: Pipe_call_def Pipe_or_def Pipe_init_def Pipe_step_def adder_stage_def
        add_value_def dict_get_def)

lemma squarer_pipe_run:
  "Pipe_call (Pipe_or (Pipe_init [] False []) squarer_stage\<lparr>pipe_value := [(''passthrough'', PInt 15)]\<rparr>)
     = (Inr (Some [(''passthrough'', PInt 225)]),
        Pipe_or (Pipe_init [] False []) squarer_stage\<lparr>pipe_value := [(''passthrough'', PInt 225)]\<rparr>)"
  by (simp add: Pipe_call_def Pipe_or_def Pipe_init_def Pipe_step_def squarer_stage_def
        square_value_def dict_get_def)

text \<open>
  C9. The chain \<^verbatim>\<open>InputNode\<close> (data \<^verbatim>\<open>{passthrough: 10}\<close>), adder (adds 5), squarer,
  \<^verbatim>\<open>OutputNode\<close>, one node per layer: after one \<^verbatim>\<open>process()\<close> of the entry layer,
  with room for at least four nested calls, the adder holds \<^verbatim>\<open>{passthrough: 15}\<close>,
  the squarer holds \<^verbatim>\<open>{passthrough: 225}\<close> and the history of the output node is
  \<^verbatim>\<open>[{passthrough: 225}]\<close>.
\<close>

theorem linear_chain_end_to_end:
  "data (nodes (Layer_process it (Suc (Suc (Suc (Suc depth)))) [''InputNode''] chain_store)
          ''AdderNode'') = Some [(''passthrough'', PInt 15)]
   \<and> data (nodes (Layer_process it (Suc (Suc (Suc (Suc depth)))) [''InputNode''] chain_store)
          ''SquarerNode'') = Some [(''passthrough'', PInt 225)]
   \<and> data_history (nodes (Layer_process it (Suc (Suc (Suc (Suc depth)))) [''InputNode''] chain_store)
          ''OutputNode'') = [Some [(''passthrough'', PInt 225)]]"
proof -
  have bag0: "pipe_value (Pipe_or (Pipe_init [] False []) adder_stage) = []"
    "pipe_value (Pipe_or (Pipe_init [] False []) squarer_stage) = []"
    by (simp_all add: Pipe_or_def Pipe_init_def)
  show ?thesis
    by (simp add: chain_store_eq Node_init_def set_data_def record_history_def
          run_pipeline_def truthy_def Let_def bag0 adder_pipe_run squarer_pipe_run
          iterate_single iterate_empty)
qed

section \<open>Connecting nodes and layers\<close>

lemma outputs_add_output:
  "outputs (nodes (add_output a b st) x) =
     (if x = a then insert b (outputs (nodes st a)) else outputs (nodes st x))"
  by (auto simp: add_output_unfold Let_def)

lemma inputs_add_output:
  "inputs (nodes (add_output a b st) y) =
     (if y = b \<and> b \<notin> outputs (nodes st a) then insert a (inputs (nodes st b))
      else inputs (nodes st y))"
  by (auto simp: add_output_unfold Let_def)

lemma add_output_present:
  "(a, b) \<in> out_edges st \<Longrightarrow> add_output a b st = st"
  by (simp add: out_edges_def add_output.simps)

lemma out_edges_add_output: "out_edges (add_output a b st) = insert (a, b) (out_edges st)"
  by (auto simp: out_edges_def outputs_add_output split: if_splits)

lemma in_edges_add_output:
  "in_edges (add_output a b st) =
     (if (a, b) \<in> out_edges st then in_edges st else insert (a, b) (in_edges st))"
  by (auto simp: in_edges_def out_edges_def inputs_add_output split: if_splits)

lemma edge_symmetry_add_output:
  "edge_symmetry st \<Longrightarrow> edge_symmetry (add_output a b st)"
  by (auto simp: edge_symmetry_def out_edges_add_output in_edges_add_output)

lemma out_edges_connect_node:
  "out_edges (connect_node n ns st) = out_edges st \<union> {n} \<times> set ns"
  by (induction ns arbitrary: st) (auto simp: out_edges_add_output)

lemma out_edges_connect_to:
  "out_edges (connect_to ms ns st) = out_edges st \<union> set ms \<times> set ns"
  by (induction ms arbitrary: st) (auto simp: out_edges_connect_node)

lemma edge_symmetry_connect_node:
  "edge_symmetry st \<Longrightarrow> edge_symmetry (connect_node n ns st)"
  by (induction ns arbitrary: st) (simp_all add: edge_symmetry_add_output)

lemma edge_symmetry_connect_to:
  "edge_symmetry st \<Longrightarrow> edge_symmetry (connect_to ms ns st)"
  by (induction ms arbitrary: st) (simp_all add: edge_symmetry_connect_node)

lemma connect_node_present:
  "{n} \<times> set ns \<subseteq> out_edges st \<Longrightarrow> connect_node n ns st = st"
  by (induction ns arbitrary: st) (simp_all add: add_output_present)

lemma connect_to_present:
  "set ms \<times> set ns \<subseteq> out_edges st \<Longrightarrow> connect_to ms ns st = st"
proof (induction ms arbitrary: st)
  case Nil
  show ?case by simp
next
  case (Cons m ms)
  then have "{m} \<times> set ns \<subseteq> out_edges st" and "set ms \<times> set ns \<subseteq> out_edges st"
    by auto
  then show ?case
    using Cons.IH by (simp add: connect_node_present)
qed

text \<open>
  C6. \<^verbatim>\<open>a.add_output(b)\<close> is how \<^verbatim>\<open>connect_to\<close> connects \<open>a\<close> to \<open>b\<close>. A second
  call changes nothing; from nodes without edges, two calls leave \<open>a\<close> with the
  outputs \<open>{b}\<close> and \<open>b\<close> with the inputs \<open>{a}\<close>; edge symmetry is kept by every
  call. \<^verbatim>\<open>connect_to\<close> keeps edge symmetry too, a second invocation changes
  nothing, and between a layer of \<open>m\<close> distinct nodes and a layer of \<open>n\<close> distinct
  nodes, none of them connected to one of the other layer before, the edges it
  creates are the pairs of a node of the first and a node of the second layer,
  \<open>m * n\<close> in number.
\<close>

theorem connect_idempotent_symmetric:
  "add_output a b (add_output a b st) = add_output a b st
   \<and> (outputs (nodes st a) = {} \<and> inputs (nodes st b) = {} \<longrightarrow>
        outputs (nodes (add_output a b (add_output a b st)) a) = {b}
      \<and> inputs (nodes (add_output a b (add_output a b st)) b) = {a})
   \<and> (edge_symmetry st \<longrightarrow> edge_symmetry (add_output a b st))
   \<and> connect_to ms ns (connect_to ms ns st) = connect_to ms ns st
   \<and> (edge_symmetry st \<longrightarrow> edge_symmetry (connect_to ms ns st))
   \<and> (distinct ms \<and> distinct ns \<and> out_edges st \<inter> set ms \<times> set ns = {} \<longrightarrow>
        out_edges (connect_to ms ns st) - out_edges st = set ms \<times> set ns
      \<and> card (out_edges (connect_to ms ns st) - out_edges st) = length ms * length ns)"
proof -
  have twice: "add_output a b (add_output a b st) = add_output a b st"
    by (rule add_output_present) (simp add: out_edges_add_output)
  have fresh: "outputs (nodes (add_output a b (add_output a b st)) a) = {b}
      \<and> inputs (nodes (add_output a b (add_output a b st)) b) = {a}"
    if "outputs (nodes st a) = {} \<and> inputs (nodes st b) = {}"
    using that by (simp add: twice outputs_add_output inputs_add_output)
  have again: "connect_to ms ns (connect_to ms ns st) = connect_to ms ns st"
    by (rule connect_to_present) (simp add: out_edges_connect_to)
  have created: "out_edges (connect_to ms ns st) - out_edges st = set ms \<times> set ns
      \<and> card (out_edges (connect_to ms ns st) - out_edges st) = length ms * length ns"
    if h: "distinct ms \<and> distinct ns \<and> out_edges st \<inter> set ms \<times> set ns = {}"
  proof -
    from h have "out_edges (connect_to ms ns st) - out_edges st = set ms \<times> set ns"
      by (auto simp: out_edges_connect_to)
    moreover from h have "card (set ms \<times> set ns) = length ms * length ns"
      by (simp add: card_cartesian_product distinct_card)
    ultimately show ?thesis by simp
  qed
  show ?thesis
  proof (intro conjI impI)
    show "add_output a b (add_output a b st) = add_output a b st"
      by (rule twice)
    show "outputs (nodes (add_output a b (add_output a b st)) a) = {b}"
      if "outputs (nodes st a) = {} \<and> inputs (nodes st b) = {}"
      using fresh [OF that] by (rule conjunct1)
    show "inputs (nodes (add_output a b (add_output a b st)) b) = {a}"
      if "outputs (nodes st a) = {} \<and> inputs (nodes st b) = {}"
      using fresh [OF that] by (rule conjunct2)
    show "edge_symmetry (add_output a b st)" if "edge_symmetry st"
      using that by (rule edge_symmetry_add_output)
    show "connect_to ms ns (connect_to ms ns st) = connect_to ms ns st"
      by (rule again)
    show "edge_symmetry (connect_to ms ns st)" if "edge_symmetry st"
      using that by (rule edge_symmetry_connect_to)
    show "out_edges (connect_to ms ns st) - out_edges st = set ms \<times> set ns"
      if "distinct ms \<and> distinct ns \<and> out_edges st \<inter> set ms \<times> set ns = {}"
      using created [OF that] by (rule conjunct1)
    show "card (out_edges (connect_to ms ns st) - out_edges st) = length ms * length ns"
      if "distinct ms \<and> distinct ns \<and> out_edges st \<inter> set ms \<times> set ns = {}"
      using created [OF that] by (rule conjunct2)
  qed
qed

lemma blank_store_edges: "out_edges blank_store = {}" "in_edges blank_store = {}"
  by (simp_all add: out_edges_def in_edges_def blank_store_def Node_init_def)

theorem connect_idempotent_symmetric_witness:
  "outputs (nodes blank_store ''A'') = {} \<and> inputs (nodes blank_store ''B'') = {}
   \<and> outputs (nodes (add_output ''A'' ''B'' (add_output ''A'' ''B'' blank_store)) ''A'') = {''B''}
   \<and> inputs (nodes (add_output ''A'' ''B'' (add_output ''A'' ''B'' blank_store)) ''B'') = {''A''}
   \<and> edge_symmetry blank_store
   \<and> edge_symmetry (connect_to [''A'', ''B''] [''C'', ''D'', ''E''] blank_store)
   \<and> distinct [''A'', ''B''] \<and> distinct [''C'', ''D'', ''E'']
   \<and> card (out_edges (connect_to [''A'', ''B''] [''C'', ''D'', ''E''] blank_store)) = 6
   \<and> map (\<lambda>n. outputs (nodes (connect_to [''A'', ''B''] [''C'', ''D'', ''E'']
                 (connect_to [''A'', ''B''] [''C'', ''D'', ''E''] blank_store)) n)) [''A'', ''B'']
       = [{''C'', ''D'', ''E''}, {''C'', ''D'', ''E''}]
   \<and> map (\<lambda>n. inputs (nodes (connect_to [''A'', ''B''] [''C'', ''D'', ''E'']
                 (connect_to [''A'', ''B''] [''C'', ''D'', ''E''] blank_store)) n)) [''C'', ''D'', ''E'']
       = [{''A'', ''B''}, {''A'', ''B''}, {''A'', ''B''}]"
proof -
  have f: "outputs (nodes blank_store ''A'') = {} \<and> inputs (nodes blank_store ''B'') = {}"
    by (simp add: blank_store_def Node_init_def)
  have s: "edge_symmetry blank_store"
    by (simp add: edge_symmetry_def blank_store_edges)
  have d: "distinct [''A'', ''B''] \<and> distinct [''C'', ''D'', ''E'']
      \<and> out_edges blank_store \<inter> set [''A'', ''B''] \<times> set [''C'', ''D'', ''E''] = {}"
    by (simp add: blank_store_edges)
  have once: "map (\<lambda>n. outputs (nodes (connect_to [''A'', ''B''] [''C'', ''D'', ''E''] blank_store) n))
                [''A'', ''B''] = [{''C'', ''D'', ''E''}, {''C'', ''D'', ''E''}]"
    "map (\<lambda>n. inputs (nodes (connect_to [''A'', ''B''] [''C'', ''D'', ''E''] blank_store) n))
                [''C'', ''D'', ''E''] = [{''A'', ''B''}, {''A'', ''B''}, {''A'', ''B''}]"
    by (simp_all add: outputs_add_output inputs_add_output blank_store_def Node_init_def
          insert_commute)
  note T = connect_idempotent_symmetric
         [of "''A''" "''B''" blank_store "[''A'', ''B'']" "[''C'', ''D'', ''E'']"]
  note T2 = T [THEN conjunct2]
  note T3 = T2 [THEN conjunct2]
  note T4 = T3 [THEN conjunct2]
  note T5 = T4 [THEN conjunct2]
  note T6 = T5 [THEN conjunct2]
  from T2 [THEN conjunct1, rule_format, OF f] have fr:
    "outputs (nodes (add_output ''A'' ''B'' (add_output ''A'' ''B'' blank_store)) ''A'') = {''B''}"
    "inputs (nodes (add_output ''A'' ''B'' (add_output ''A'' ''B'' blank_store)) ''B'') = {''A''}"
    by (rule conjunct1, rule conjunct2)
  from T4 [THEN conjunct1] have i: "connect_to [''A'', ''B''] [''C'', ''D'', ''E'']
                    (connect_to [''A'', ''B''] [''C'', ''D'', ''E''] blank_store)
                  = connect_to [''A'', ''B''] [''C'', ''D'', ''E''] blank_store" .
  from T5 [THEN conjunct1, rule_format, OF s]
  have sym: "edge_symmetry (connect_to [''A'', ''B''] [''C'', ''D'', ''E''] blank_store)" .
  from T6 [rule_format, OF d, THEN conjunct2]
  have "card (out_edges (connect_to [''A'', ''B''] [''C'', ''D'', ''E''] blank_store)
                  - out_edges blank_store) = length [''A'', ''B''] * length [''C'', ''D'', ''E'']" .
  then have c: "card (out_edges (connect_to [''A'', ''B''] [''C'', ''D'', ''E''] blank_store)) = 6"
    by (simp add: blank_store_edges)
  have twice:
    "map (\<lambda>n. outputs (nodes (connect_to [''A'', ''B''] [''C'', ''D'', ''E'']
                 (connect_to [''A'', ''B''] [''C'', ''D'', ''E''] blank_store)) n)) [''A'', ''B'']
       = [{''C'', ''D'', ''E''}, {''C'', ''D'', ''E''}]"
    "map (\<lambda>n. inputs (nodes (connect_to [''A'', ''B''] [''C'', ''D'', ''E'']
                 (connect_to [''A'', ''B''] [''C'', ''D'', ''E''] blank_store)) n)) [''C'', ''D'', ''E'']
       = [{''A'', ''B''}, {''A'', ''B''}, {''A'', ''B''}]"
    unfolding i by (rule once)+
  from f fr s sym d c twice show ?thesis
    by (simp only: simp_thms)
qed

end
